theory Spec2Isabelle
  imports Main "HOL-Library.Sublist" "HOL-Library.Multiset"
begin

section \<open>Decoded response trees\<close>

text \<open>
  A decoded response node is an \<^verbatim>\<open>interface{}\<close> value of Go. The variants are the ones
  the decoder produces: nil, a boolean, a number, a string, a slice of nodes and a
  \<^verbatim>\<open>map[string]interface{}\<close>. A Go map is kept as the list of its entries; the keys of a
  map of Go are unique, which is the predicate \<open>uniqueKeys\<close> on the entry list. The
  payload of a number is never inspected by the code below.
\<close>

datatype dyn =
    Null
  | Boolean bool
  | Number int
  | String string
  | List "dyn list"
  | Mapping "(string \<times> dyn) list"

type_synonym entries = "(string \<times> dyn) list"

definition uniqueKeys :: "entries \<Rightarrow> bool" where
  "uniqueKeys m = distinct (map fst m)"

text \<open>Indexing a Go map, \<^verbatim>\<open>m[k]\<close>: the value stored under the key, nil when there is none.\<close>

definition mapIndex :: "entries \<Rightarrow> string \<Rightarrow> dyn" where
  "mapIndex m k = (case map_of m k of Some v \<Rightarrow> v | None \<Rightarrow> Null)"

text \<open>
  The entries and the keys a node offers to a \<^verbatim>\<open>range\<close> loop: those of a map, none for
  any other node, on which the type assertion fails.
\<close>

fun entriesOf :: "dyn \<Rightarrow> entries" where
  "entriesOf (Mapping m) = m"
| "entriesOf _ = []"

fun keysOf :: "dyn \<Rightarrow> string set" where
  "keysOf (Mapping m) = fst ` set m"
| "keysOf _ = {}"

section \<open>Library functions on strings\<close>

text \<open>
  \<^verbatim>\<open>strings.ToLower\<close>, on the bytes of the string: the letters A to Z are mapped to a to z
  and every other byte is kept. The code compares the lower-cased string with the ASCII
  literals \<^verbatim>\<open>"true"\<close> and \<^verbatim>\<open>"xaddr"\<close> only, and no character outside ASCII lower-cases
  to one of the letters of these two words.
\<close>

definition lower_char :: "char \<Rightarrow> char" where
  "lower_char c =
     (case map_of (zip ''ABCDEFGHIJKLMNOPQRSTUVWXYZ'' ''abcdefghijklmnopqrstuvwxyz'') c of
        Some d \<Rightarrow> d
      | None \<Rightarrow> c)"

definition ToLower :: "string \<Rightarrow> string" where
  "ToLower s = map lower_char s"

text \<open>
  \<^verbatim>\<open>strings.Replace(s, old, new, n)\<close> for a non-empty \<open>old\<close>, the only way the code calls
  it: the leftmost non-overlapping occurrences of \<open>old\<close> are replaced by \<open>new\<close>, the
  first \<open>n\<close> of them, all of them when \<open>n\<close> is negative.
\<close>

fun Replace :: "string \<Rightarrow> string \<Rightarrow> string \<Rightarrow> int \<Rightarrow> string" where
  "Replace [] (p # ps) new n = []"
| "Replace (c # cs) (p # ps) new n =
     (if n = 0 then c # cs
      else if prefix (p # ps) (c # cs)
        then new @ Replace (drop (length ps) cs) (p # ps) new (n - 1)
        else c # Replace cs (p # ps) new n)"

section \<open>Path navigation\<close>

datatype error =
    NotFoundError string
  | SendRequestError string

text \<open>\<^verbatim>\<open>strings.Split(path, ".")\<close>: the segments between the dots.\<close>

fun splitPath :: "string \<Rightarrow> string list" where
  "splitPath [] = [[]]"
| "splitPath (c # cs) =
     (if c = CHR ''.'' then [] # splitPath cs
      else (case splitPath cs of
              [] \<Rightarrow> [[c]]
            | seg # segs \<Rightarrow> (c # seg) # segs))"

text \<open>
  Modelled from the spec: \<^verbatim>\<open>ValueForPath\<close> is a method of the response type and is not
  part of \<^verbatim>\<open>device.go\<close>. The specification (4.2, \<^verbatim>\<open>valueAt\<close>) splits the path on the
  dots and, starting at the root, requires the current node to be a Mapping and looks up
  the next segment; it fails with a NotFoundError the first time a segment is missing or
  the current node is not a Mapping, and returns whatever node is at the last segment.
\<close>

fun valueAt :: "string \<Rightarrow> dyn \<Rightarrow> string list \<Rightarrow> error + dyn" where
  "valueAt path v [] = Inr v"
| "valueAt path (Mapping m) (k # ks) =
     (case map_of m k of
        None \<Rightarrow> Inl (NotFoundError path)
      | Some v \<Rightarrow> valueAt path v ks)"
| "valueAt path _ (k # ks) = Inl (NotFoundError path)"

definition ValueForPath :: "dyn \<Rightarrow> string \<Rightarrow> error + dyn" where
  "ValueForPath root path = valueAt path root (splitPath path)"

section \<open>Coercion helpers\<close>

fun interfaceToString :: "dyn \<Rightarrow> string" where
  "interfaceToString (String str) = str"
| "interfaceToString _ = []"

definition interfaceToBool :: "dyn \<Rightarrow> bool" where
  "interfaceToBool src = (ToLower (interfaceToString src) = ''true'')"

section \<open>The capability model\<close>

text \<open>
  Modelled from the spec: the two result types are declared outside \<^verbatim>\<open>device.go\<close>; the
  fields and their types are the ones \<^verbatim>\<open>GetCapabilities\<close> assigns. A \<^verbatim>\<open>map[string]bool\<close>
  of Go is either nil (\<open>None\<close>) or an allocated map (\<open>Some\<close>).
\<close>

type_synonym flags = "(string \<rightharpoonup> bool) option"

record NetworkCapabilities =
  DynDNS :: bool
  IPFilter :: bool
  IPVersion6 :: bool
  ZeroConfig :: bool
  Extension :: flags

record DeviceCapabilities =
  Network :: NetworkCapabilities
  Events :: flags
  Streaming :: flags
  PTZ :: bool

text \<open>The zero values \<^verbatim>\<open>NetworkCapabilities{}\<close> and \<^verbatim>\<open>DeviceCapabilities{}\<close>.\<close>

definition zeroNetworkCapabilities :: NetworkCapabilities where
  "zeroNetworkCapabilities =
     \<lparr>DynDNS = False, IPFilter = False, IPVersion6 = False, ZeroConfig = False,
      Extension = None\<rparr>"

definition zeroDeviceCapabilities :: DeviceCapabilities where
  "zeroDeviceCapabilities =
     \<lparr>Network = zeroNetworkCapabilities, Events = None, Streaming = None, PTZ = False\<rparr>"

section \<open>Iteration order of a map\<close>

text \<open>
  A \<^verbatim>\<open>range\<close> loop over a map of Go visits every entry once, in an order the runtime
  chooses afresh for every loop. The three loops of \<^verbatim>\<open>GetCapabilities\<close> therefore take
  their order from a schedule, which stands for the choices of one run; two runs may
  have two schedules.
\<close>

record schedule =
  extensionOrder :: "entries \<Rightarrow> entries"
  eventsOrder :: "entries \<Rightarrow> entries"
  streamingOrder :: "entries \<Rightarrow> entries"

definition validSchedule :: "schedule \<Rightarrow> bool" where
  "validSchedule sch \<longleftrightarrow>
     (\<forall>m. mset (extensionOrder sch m) = mset m) \<and>
     (\<forall>m. mset (eventsOrder sch m) = mset m) \<and>
     (\<forall>m. mset (streamingOrder sch m) = mset m)"

definition inOrder :: schedule where
  "inOrder = \<lparr>extensionOrder = (\<lambda>m. m), eventsOrder = (\<lambda>m. m), streamingOrder = (\<lambda>m. m)\<rparr>"

definition backwards :: schedule where
  "backwards = \<lparr>extensionOrder = rev, eventsOrder = rev, streamingOrder = rev\<rparr>"

section \<open>GetCapabilities\<close>

definition envelopeBodyPath :: string where
  "envelopeBodyPath = ''Envelope.Body.GetCapabilitiesResponse.Capabilities''"

text \<open>Lines 84 to 98: the network capabilities.\<close>

definition extensionStep :: "string \<times> dyn \<Rightarrow> (string \<rightharpoonup> bool) \<Rightarrow> (string \<rightharpoonup> bool)" where
  "extensionStep kv ext = ext(fst kv \<mapsto> interfaceToBool (snd kv))"

definition netCap :: "schedule \<Rightarrow> dyn \<Rightarrow> NetworkCapabilities" where
  "netCap sch ifaceNetCap =
     (case ifaceNetCap of
        Mapping mapNetCap \<Rightarrow>
          \<lparr>DynDNS = interfaceToBool (mapIndex mapNetCap ''DynDNS''),
           IPFilter = interfaceToBool (mapIndex mapNetCap ''IPFilter''),
           IPVersion6 = interfaceToBool (mapIndex mapNetCap ''IPVersion6''),
           ZeroConfig = interfaceToBool (mapIndex mapNetCap ''ZeroConfiguration''),
           Extension = Some
             (case mapIndex mapNetCap ''Extension'' of
                Mapping mapNetExtension \<Rightarrow>
                  fold extensionStep (extensionOrder sch mapNetExtension) Map.empty
              | _ \<Rightarrow> Map.empty)\<rparr>
      | _ \<Rightarrow> zeroNetworkCapabilities)"

text \<open>Lines 106 to 116: the events capabilities.\<close>

definition eventsStep :: "string \<times> dyn \<Rightarrow> (string \<rightharpoonup> bool) \<Rightarrow> (string \<rightharpoonup> bool)" where
  "eventsStep kv acc =
     (if ToLower (fst kv) = ''xaddr'' then acc
      else acc(Replace (fst kv) ''WS'' '''' 1 \<mapsto> interfaceToBool (snd kv)))"

definition eventsCap :: "schedule \<Rightarrow> dyn \<Rightarrow> (string \<rightharpoonup> bool)" where
  "eventsCap sch ifaceEventsCap =
     (case ifaceEventsCap of
        Mapping mapEventsCap \<Rightarrow> fold eventsStep (eventsOrder sch mapEventsCap) Map.empty
      | _ \<Rightarrow> Map.empty)"

text \<open>Lines 124 to 130: the streaming capabilities.\<close>

definition streamingStep :: "string \<times> dyn \<Rightarrow> (string \<rightharpoonup> bool) \<Rightarrow> (string \<rightharpoonup> bool)" where
  "streamingStep kv acc = acc(Replace (fst kv) ''_'' '' '' (- 1) \<mapsto> interfaceToBool (snd kv))"

definition streamingCap :: "schedule \<Rightarrow> dyn \<Rightarrow> (string \<rightharpoonup> bool)" where
  "streamingCap sch ifaceStreamingCap =
     (case ifaceStreamingCap of
        Mapping mapStreamingCap \<Rightarrow>
          fold streamingStep (streamingOrder sch mapStreamingCap) Map.empty
      | _ \<Rightarrow> Map.empty)"

text \<open>Lines 132 to 136: the PTZ capability, true unless the lookup fails.\<close>

definition ptzCap :: "dyn \<Rightarrow> bool" where
  "ptzCap response =
     (case ValueForPath response (envelopeBodyPath @ ''.PTZ'') of
        Inl err \<Rightarrow> False
      | Inr v \<Rightarrow> True)"

text \<open>
  The whole function. Its first argument is the schedule of the run, its second the
  outcome of \<^verbatim>\<open>soap.SendRequest\<close>, the transport, which is not part of \<^verbatim>\<open>device.go\<close>: an
  error or the decoded response. The result is the pair Go returns; \<open>None\<close> is the nil
  error.
\<close>

definition GetCapabilities :: "schedule \<Rightarrow> error + dyn \<Rightarrow> DeviceCapabilities \<times> error option" where
  "GetCapabilities sch sent =
     (case sent of
        Inl err \<Rightarrow> (zeroDeviceCapabilities, Some err)
      | Inr response \<Rightarrow>
          (case ValueForPath response (envelopeBodyPath @ ''.Device.Network'') of
             Inl err \<Rightarrow> (zeroDeviceCapabilities, Some err)
           | Inr ifaceNetCap \<Rightarrow>
               (case ValueForPath response (envelopeBodyPath @ ''.Events'') of
                  Inl err \<Rightarrow> (zeroDeviceCapabilities, Some err)
                | Inr ifaceEventsCap \<Rightarrow>
                    (case ValueForPath response
                            (envelopeBodyPath @ ''.Media.StreamingCapabilities'') of
                       Inl err \<Rightarrow> (zeroDeviceCapabilities, Some err)
                     | Inr ifaceStreamingCap \<Rightarrow>
                         (\<lparr>Network = netCap sch ifaceNetCap,
                           Events = Some (eventsCap sch ifaceEventsCap),
                           Streaming = Some (streamingCap sch ifaceStreamingCap),
                           PTZ = ptzCap response\<rparr>, None)))))"

text \<open>
  The keys the three loops write, in the order of the entry lists: the keys of the
  \<^verbatim>\<open>Extension\<close> map of the network node, the renamed keys of the events node without the
  skipped ones, and the renamed keys of the streaming node. Two wire keys of one loop
  collide when they are written to the same key.
\<close>

definition extensionKeys :: "dyn \<Rightarrow> string list" where
  "extensionKeys ifaceNetCap = map fst (entriesOf (mapIndex (entriesOf ifaceNetCap) ''Extension''))"

definition eventsKeys :: "dyn \<Rightarrow> string list" where
  "eventsKeys ifaceEventsCap =
     map (\<lambda>k. Replace k ''WS'' '''' 1)
       (filter (\<lambda>k. ToLower k \<noteq> ''xaddr'') (map fst (entriesOf ifaceEventsCap)))"

definition streamingKeys :: "dyn \<Rightarrow> string list" where
  "streamingKeys ifaceStreamingCap =
     map (\<lambda>k. Replace k ''_'' '' '' (- 1)) (map fst (entriesOf ifaceStreamingCap))"

definition collisionFree :: "dyn \<Rightarrow> bool" where
  "collisionFree response =
     (case ValueForPath response (envelopeBodyPath @ ''.Device.Network'') of
        Inl err \<Rightarrow> True
      | Inr ifaceNetCap \<Rightarrow>
          (case ValueForPath response (envelopeBodyPath @ ''.Events'') of
             Inl err \<Rightarrow> True
           | Inr ifaceEventsCap \<Rightarrow>
               (case ValueForPath response
                       (envelopeBodyPath @ ''.Media.StreamingCapabilities'') of
                  Inl err \<Rightarrow> True
                | Inr ifaceStreamingCap \<Rightarrow>
                    distinct (extensionKeys ifaceNetCap) \<and>
                    distinct (eventsKeys ifaceEventsCap) \<and>
                    distinct (streamingKeys ifaceStreamingCap))))"

text \<open>A response whose \<^verbatim>\<open>Capabilities\<close> element has the given children.\<close>

definition capabilitiesResponse :: "entries \<Rightarrow> dyn" where
  "capabilitiesResponse caps =
     Mapping [(''Envelope'', Mapping [(''Body'',
       Mapping [(''GetCapabilitiesResponse'', Mapping [(''Capabilities'', Mapping caps)])])])]"

section \<open>Auxiliary facts\<close>

lemma splitPath_Network:
  "splitPath (envelopeBodyPath @ ''.Device.Network'') =
     [''Envelope'', ''Body'', ''GetCapabilitiesResponse'', ''Capabilities'', ''Device'', ''Network'']"
  by (simp add: envelopeBodyPath_def)

lemma splitPath_Events:
  "splitPath (envelopeBodyPath @ ''.Events'') =
     [''Envelope'', ''Body'', ''GetCapabilitiesResponse'', ''Capabilities'', ''Events'']"
  by (simp add: envelopeBodyPath_def)

lemma splitPath_Streaming:
  "splitPath (envelopeBodyPath @ ''.Media.StreamingCapabilities'') =
     [''Envelope'', ''Body'', ''GetCapabilitiesResponse'', ''Capabilities'', ''Media'',
      ''StreamingCapabilities'']"
  by (simp add: envelopeBodyPath_def)

lemma splitPath_PTZ:
  "splitPath (envelopeBodyPath @ ''.PTZ'') =
     [''Envelope'', ''Body'', ''GetCapabilitiesResponse'', ''Capabilities'', ''PTZ'']"
  by (simp add: envelopeBodyPath_def)

lemma fold_store:
  "fold (\<lambda>kv acc. if P (fst kv) then acc else acc(f (fst kv) \<mapsto> g (snd kv))) es acc =
   acc ++ map_of (rev (map (\<lambda>kv. (f (fst kv), g (snd kv))) (filter (\<lambda>kv. \<not> P (fst kv)) es)))"
proof (induction es arbitrary: acc)
  case Nil
  show ?case by simp
next
  case (Cons e es)
  show ?case
  proof (cases "P (fst e)")
    case True
    then show ?thesis using Cons.IH [of acc] by simp
  next
    case False
    let ?Q = "\<lambda>kv. \<not> P (fst kv)"
    let ?T = "\<lambda>kv. (f (fst kv), g (snd kv))"
    let ?L = "rev (map ?T (filter ?Q es))"
    let ?step = "\<lambda>kv acc. if P (fst kv) then acc else acc(f (fst kv) \<mapsto> g (snd kv))"
    have l: "map_of (rev (map ?T (filter ?Q (e # es)))) =
        [f (fst e) \<mapsto> g (snd e)] ++ map_of ?L"
      using False by (simp add: map_of_append)
    have "fold ?step (e # es) acc = fold ?step es (acc(f (fst e) \<mapsto> g (snd e)))"
      using False by simp
    also have "\<dots> = acc(f (fst e) \<mapsto> g (snd e)) ++ map_of ?L"
      by (rule Cons.IH)
    also have "\<dots> = acc ++ ([f (fst e) \<mapsto> g (snd e)] ++ map_of ?L)"
      by simp
    finally show ?thesis
      by (simp only: l)
  qed
qed

lemma map_of_mset_eq:
  assumes "mset xs = mset ys" and "distinct (map fst ys)"
  shows "map_of xs = map_of ys"
proof -
  have s: "set xs = set ys" using assms(1) by (rule mset_eq_setD)
  have "mset (map fst xs) = mset (map fst ys)" using assms(1) by simp
  then have "distinct (map fst xs)" using assms(2) mset_eq_imp_distinct_iff by blast
  then show ?thesis using assms(2) s by (simp add: map_of_inject_set)
qed

lemma store_canonical:
  assumes "mset es = mset m"
    and "distinct (map f (filter (\<lambda>k. \<not> P k) (map fst m)))"
  shows "fold (\<lambda>kv acc. if P (fst kv) then acc else acc(f (fst kv) \<mapsto> g (snd kv))) es Map.empty =
         map_of (map (\<lambda>kv. (f (fst kv), g (snd kv))) (filter (\<lambda>kv. \<not> P (fst kv)) m))"
proof -
  let ?Q = "\<lambda>kv. \<not> P (fst kv)"
  let ?T = "\<lambda>kv. (f (fst kv), g (snd kv))"
  have "mset (rev (map ?T (filter ?Q es))) = mset (map ?T (filter ?Q m))"
    using assms(1) by simp
  moreover have "map fst (map ?T (filter ?Q m)) = map f (filter (\<lambda>k. \<not> P k) (map fst m))"
    by (simp add: filter_map comp_def)
  ultimately have "map_of (rev (map ?T (filter ?Q es))) = map_of (map ?T (filter ?Q m))"
    using assms(2) by (intro map_of_mset_eq) simp_all
  then show ?thesis by (simp add: fold_store)
qed

lemma store_dom:
  "dom (fold (\<lambda>kv acc. if P (fst kv) then acc else acc(f (fst kv) \<mapsto> g (snd kv))) es Map.empty) =
   f ` {k \<in> fst ` set es. \<not> P k}"
  by (force simp add: fold_store dom_map_of_conv_image_fst)

lemma store_value:
  assumes "fold (\<lambda>kv acc. if P (fst kv) then acc else acc(f (fst kv) \<mapsto> g (snd kv))) es Map.empty k'
             = Some b"
  shows "\<exists>k v. (k, v) \<in> set es \<and> \<not> P k \<and> f k = k' \<and> b = g v"
proof -
  from assms have "(k', b) \<in> set (rev (map (\<lambda>kv. (f (fst kv), g (snd kv)))
      (filter (\<lambda>kv. \<not> P (fst kv)) es)))"
    by (simp only: fold_store empty_map_add) (rule map_of_SomeD)
  then show ?thesis by auto blast
qed

lemma eventsStep_eq:
  "eventsStep = (\<lambda>kv acc. if ToLower (fst kv) = ''xaddr'' then acc
      else acc((\<lambda>k. Replace k ''WS'' '''' 1) (fst kv) \<mapsto> interfaceToBool (snd kv)))"
  by (rule ext)+ (simp add: eventsStep_def)

lemma streamingStep_eq:
  "streamingStep = (\<lambda>kv acc. if (\<lambda>k. False) (fst kv) then acc
      else acc((\<lambda>k. Replace k ''_'' '' '' (- 1)) (fst kv) \<mapsto> interfaceToBool (snd kv)))"
  by (rule ext)+ (simp add: streamingStep_def)

lemma extensionStep_eq:
  "extensionStep = (\<lambda>kv acc. if (\<lambda>k. False) (fst kv) then acc
      else acc((\<lambda>k. k) (fst kv) \<mapsto> interfaceToBool (snd kv)))"
  by (rule ext)+ (simp add: extensionStep_def)

lemmas path_simps =
  ValueForPath_def splitPath_Network splitPath_Events splitPath_Streaming splitPath_PTZ

lemmas run_simps =
  GetCapabilities_def netCap_def eventsCap_def streamingCap_def ptzCap_def
  extensionStep_def eventsStep_def streamingStep_def mapIndex_def interfaceToBool_def
  ToLower_def lower_char_def capabilitiesResponse_def
  zeroDeviceCapabilities_def zeroNetworkCapabilities_def

lemma validSchedule_inOrder: "validSchedule inOrder"
  by (simp add: validSchedule_def inOrder_def)

lemma validSchedule_backwards: "validSchedule backwards"
  by (simp add: validSchedule_def backwards_def)

lemma extension_canonical:
  assumes "validSchedule sch" and "distinct (map fst m)"
  shows "fold extensionStep (extensionOrder sch m) Map.empty =
         map_of (map (\<lambda>kv. (fst kv, interfaceToBool (snd kv))) m)"
proof -
  have "mset (extensionOrder sch m) = mset m"
    using assms(1) by (simp add: validSchedule_def)
  from store_canonical [where P = "\<lambda>k. False" and f = "\<lambda>k. k" and g = interfaceToBool, OF this]
  show ?thesis using assms(2) by (simp add: extensionStep_eq)
qed

lemma eventsCap_canonical:
  assumes "validSchedule sch"
    and "distinct (map (\<lambda>k. Replace k ''WS'' '''' 1)
           (filter (\<lambda>k. ToLower k \<noteq> ''xaddr'') (map fst m)))"
  shows "eventsCap sch (Mapping m) =
         map_of (map (\<lambda>kv. (Replace (fst kv) ''WS'' '''' 1, interfaceToBool (snd kv)))
                   (filter (\<lambda>kv. ToLower (fst kv) \<noteq> ''xaddr'') m))"
proof -
  have "mset (eventsOrder sch m) = mset m"
    using assms(1) by (simp add: validSchedule_def)
  from store_canonical [where P = "\<lambda>k. ToLower k = ''xaddr''"
      and f = "\<lambda>k. Replace k ''WS'' '''' 1" and g = interfaceToBool, OF this assms(2)]
  show ?thesis by (simp add: eventsCap_def eventsStep_eq)
qed

lemma streamingCap_canonical:
  assumes "validSchedule sch"
    and "distinct (map (\<lambda>k. Replace k ''_'' '' '' (- 1)) (map fst m))"
  shows "streamingCap sch (Mapping m) =
         map_of (map (\<lambda>kv. (Replace (fst kv) ''_'' '' '' (- 1), interfaceToBool (snd kv))) m)"
proof -
  have "mset (streamingOrder sch m) = mset m"
    using assms(1) by (simp add: validSchedule_def)
  from store_canonical [where P = "\<lambda>k. False"
      and f = "\<lambda>k. Replace k ''_'' '' '' (- 1)" and g = interfaceToBool, OF this]
  show ?thesis using assms(2) by (simp add: streamingCap_def streamingStep_eq)
qed

lemma ValueForPath_error:
  "ValueForPath root path = Inl e \<Longrightarrow> e = NotFoundError path"
proof -
  have "valueAt p v ks = Inl e \<Longrightarrow> e = NotFoundError p" for p v ks
    by (induction p v ks rule: valueAt.induct) (auto split: option.splits)
  then show "ValueForPath root path = Inl e \<Longrightarrow> e = NotFoundError path"
    by (simp add: ValueForPath_def)
qed

lemma GetCapabilities_success:
  assumes "ValueForPath r (envelopeBodyPath @ ''.Device.Network'') = Inr a"
    and "ValueForPath r (envelopeBodyPath @ ''.Events'') = Inr b"
    and "ValueForPath r (envelopeBodyPath @ ''.Media.StreamingCapabilities'') = Inr c"
  shows "GetCapabilities sch (Inr r) =
     (\<lparr>Network = netCap sch a, Events = Some (eventsCap sch b),
       Streaming = Some (streamingCap sch c), PTZ = ptzCap r\<rparr>, None)"
  using assms by (simp add: GetCapabilities_def)

lemma GetCapabilities_success_iff:
  "snd (GetCapabilities sch (Inr r)) = None \<longleftrightarrow>
     (\<exists>a b c. ValueForPath r (envelopeBodyPath @ ''.Device.Network'') = Inr a \<and>
        ValueForPath r (envelopeBodyPath @ ''.Events'') = Inr b \<and>
        ValueForPath r (envelopeBodyPath @ ''.Media.StreamingCapabilities'') = Inr c)"
  by (auto simp add: GetCapabilities_def split: sum.splits)

lemma eventsCap_not_Mapping: "(\<forall>m. v \<noteq> Mapping m) \<Longrightarrow> eventsCap sch v = Map.empty"
  by (cases v) (simp_all add: eventsCap_def)

lemma streamingCap_not_Mapping: "(\<forall>m. v \<noteq> Mapping m) \<Longrightarrow> streamingCap sch v = Map.empty"
  by (cases v) (simp_all add: streamingCap_def)

lemma lower_char_t: "lower_char c = CHR ''t'' \<longleftrightarrow> c = CHR ''t'' \<or> c = CHR ''T''"
  by (auto simp: lower_char_def split: if_splits)

lemma lower_char_r: "lower_char c = CHR ''r'' \<longleftrightarrow> c = CHR ''r'' \<or> c = CHR ''R''"
  by (auto simp: lower_char_def split: if_splits)

lemma lower_char_u: "lower_char c = CHR ''u'' \<longleftrightarrow> c = CHR ''u'' \<or> c = CHR ''U''"
  by (auto simp: lower_char_def split: if_splits)

lemma lower_char_e: "lower_char c = CHR ''e'' \<longleftrightarrow> c = CHR ''e'' \<or> c = CHR ''E''"
  by (auto simp: lower_char_def split: if_splits)

lemma ToLower_true_iff:
  "ToLower s = ''true'' \<longleftrightarrow>
     (\<exists>a b c d. s = [a, b, c, d] \<and> a \<in> {CHR ''t'', CHR ''T''} \<and> b \<in> {CHR ''r'', CHR ''R''} \<and>
        c \<in> {CHR ''u'', CHR ''U''} \<and> d \<in> {CHR ''e'', CHR ''E''})"
proof
  assume "ToLower s = ''true''"
  then obtain a b c d where s: "s = [a, b, c, d]"
    and "lower_char a = CHR ''t''" "lower_char b = CHR ''r''"
        "lower_char c = CHR ''u''" "lower_char d = CHR ''e''"
    unfolding ToLower_def by (auto simp add: map_eq_Cons_conv)
  then show "\<exists>a b c d. s = [a, b, c, d] \<and> a \<in> {CHR ''t'', CHR ''T''} \<and>
        b \<in> {CHR ''r'', CHR ''R''} \<and> c \<in> {CHR ''u'', CHR ''U''} \<and> d \<in> {CHR ''e'', CHR ''E''}"
    unfolding lower_char_t lower_char_r lower_char_u lower_char_e by blast
next
  assume "\<exists>a b c d. s = [a, b, c, d] \<and> a \<in> {CHR ''t'', CHR ''T''} \<and>
        b \<in> {CHR ''r'', CHR ''R''} \<and> c \<in> {CHR ''u'', CHR ''U''} \<and> d \<in> {CHR ''e'', CHR ''E''}"
  then obtain a b c d where s: "s = [a, b, c, d]"
    and "lower_char a = CHR ''t''" "lower_char b = CHR ''r''"
        "lower_char c = CHR ''u''" "lower_char d = CHR ''e''"
    unfolding lower_char_t lower_char_r lower_char_u lower_char_e by blast
  then show "ToLower s = ''true''"
    by (simp add: ToLower_def)
qed

lemma netCap_DynDNS:
  "map_of m ''DynDNS'' = Some (String s) \<Longrightarrow>
     DynDNS (netCap sch (Mapping m)) = (ToLower s = ''true'')"
  by (simp add: netCap_def mapIndex_def interfaceToBool_def)

lemma ptzCap_iff: "ptzCap r \<longleftrightarrow> (\<exists>v. ValueForPath r (envelopeBodyPath @ ''.PTZ'') = Inr v)"
  by (simp add: ptzCap_def split: sum.splits)

lemma GetCapabilities_error:
  assumes "snd (GetCapabilities sch (Inr r)) = Some e"
  shows "e \<in> {NotFoundError (envelopeBodyPath @ ''.Device.Network''),
              NotFoundError (envelopeBodyPath @ ''.Events''),
              NotFoundError (envelopeBodyPath @ ''.Media.StreamingCapabilities'')}"
  using assms
  by (auto simp add: GetCapabilities_def split: sum.splits dest: ValueForPath_error)

lemma GetCapabilities_failure_PTZ:
  "snd (GetCapabilities sch (Inr r)) \<noteq> None \<Longrightarrow> \<not> PTZ (fst (GetCapabilities sch (Inr r)))"
  by (auto simp add: GetCapabilities_def zeroDeviceCapabilities_def split: sum.splits)

lemma validSchedule_set:
  assumes "validSchedule sch"
  shows "set (extensionOrder sch m) = set m \<and> set (eventsOrder sch m) = set m \<and>
    set (streamingOrder sch m) = set m"
proof (intro conjI)
  have "mset (extensionOrder sch m) = mset m"
    using assms by (simp add: validSchedule_def)
  then show "set (extensionOrder sch m) = set m" by (rule mset_eq_setD)
  have "mset (eventsOrder sch m) = mset m"
    using assms by (simp add: validSchedule_def)
  then show "set (eventsOrder sch m) = set m" by (rule mset_eq_setD)
  have "mset (streamingOrder sch m) = mset m"
    using assms by (simp add: validSchedule_def)
  then show "set (streamingOrder sch m) = set m" by (rule mset_eq_setD)
qed

lemma eventsCap_dom:
  assumes "validSchedule sch"
  shows "dom (eventsCap sch v) =
     (\<lambda>k. Replace k ''WS'' '''' 1) ` {k \<in> keysOf v. ToLower k \<noteq> ''xaddr''}"
proof (cases v)
  case (Mapping m)
  have "dom (fold eventsStep (eventsOrder sch m) Map.empty) =
      (\<lambda>k. Replace k ''WS'' '''' 1) `
        {k \<in> fst ` set (eventsOrder sch m). \<not> ToLower k = ''xaddr''}"
    unfolding eventsStep_eq
    by (rule store_dom [where P = "\<lambda>k. ToLower k = ''xaddr''"])
  then show ?thesis
    by (simp add: Mapping eventsCap_def validSchedule_set [OF assms])
qed (simp_all add: eventsCap_def)

lemma eventsCap_value:
  assumes "validSchedule sch" and "eventsCap sch v k' = Some b"
  shows "\<exists>k x. (k, x) \<in> set (entriesOf v) \<and>
           ToLower k \<noteq> ''xaddr'' \<and> Replace k ''WS'' '''' 1 = k' \<and> b = interfaceToBool x"
proof (cases v)
  case (Mapping m)
  with assms(2) have "fold eventsStep (eventsOrder sch m) Map.empty k' = Some b"
    by (simp add: eventsCap_def)
  from store_value [OF this [unfolded eventsStep_eq]]
  show ?thesis by (simp add: Mapping validSchedule_set [OF assms(1)])
qed (use assms(2) in \<open>simp_all add: eventsCap_def\<close>)

lemma streamingCap_dom:
  assumes "validSchedule sch"
  shows "dom (streamingCap sch v) = (\<lambda>k. Replace k ''_'' '' '' (- 1)) ` keysOf v"
proof (cases v)
  case (Mapping m)
  have "dom (fold streamingStep (streamingOrder sch m) Map.empty) =
      (\<lambda>k. Replace k ''_'' '' '' (- 1)) `
        {k \<in> fst ` set (streamingOrder sch m). \<not> False}"
    unfolding streamingStep_eq
    by (rule store_dom [where P = "\<lambda>k. False"])
  then show ?thesis
    by (simp add: Mapping streamingCap_def validSchedule_set [OF assms])
qed (simp_all add: streamingCap_def)

lemma Replace_underscore:
  "n < 0 \<Longrightarrow> Replace s ''_'' '' '' n = map (\<lambda>c. if c = CHR ''_'' then CHR '' '' else c) s"
  by (induction s arbitrary: n) auto

lemma ToLower_Replace_underscore:
  "ToLower (Replace k ''_'' '' '' (- 1)) = ''xaddr'' \<longleftrightarrow> ToLower k = ''xaddr''"
proof -
  let ?sub = "\<lambda>c. if c = CHR ''_'' then CHR '' '' else c"
  have sp: "lower_char CHR '' '' = CHR '' ''" and us: "lower_char CHR ''_'' = CHR ''_''"
    by (simp_all add: lower_char_def)
  have "CHR ''_'' \<notin> set k" if "ToLower (map ?sub k) = ''xaddr''"
  proof
    assume "CHR ''_'' \<in> set k"
    then have "lower_char (?sub CHR ''_'') \<in> set (ToLower (map ?sub k))"
      unfolding ToLower_def set_map by blast
    then show False by (simp add: that sp)
  qed
  moreover have "CHR ''_'' \<notin> set k" if "ToLower k = ''xaddr''"
  proof
    assume "CHR ''_'' \<in> set k"
    then have "lower_char CHR ''_'' \<in> set (ToLower k)"
      unfolding ToLower_def set_map by blast
    then show False by (simp add: that us)
  qed
  moreover have "map ?sub k = k" if "CHR ''_'' \<notin> set k"
    using that by (induction k) auto
  ultimately show ?thesis
    by (auto simp add: Replace_underscore)
qed

lemma mem_image_filter: "w \<in> f ` {k \<in> A. P k} \<longleftrightarrow> (\<exists>k\<in>A. P k \<and> f k = w)"
  by auto

lemma keysOf_entriesOf: "keysOf v = fst ` set (entriesOf v)"
  by (cases v) simp_all

lemma netCap_schedule:
  assumes "validSchedule s1" and "validSchedule s2" and "distinct (extensionKeys a)"
  shows "netCap s1 a = netCap s2 a"
proof (cases a)
  case (Mapping mn)
  show ?thesis
  proof (cases "mapIndex mn ''Extension''")
    case ext: (Mapping me)
    from assms(3) have d: "distinct (map fst me)"
      by (simp add: extensionKeys_def Mapping ext)
    show ?thesis
      by (simp add: netCap_def Mapping ext extension_canonical [OF assms(1) d]
          extension_canonical [OF assms(2) d])
  qed (simp_all add: netCap_def Mapping)
qed (simp_all add: netCap_def)

lemma eventsCap_schedule:
  assumes "validSchedule s1" and "validSchedule s2" and "distinct (eventsKeys b)"
  shows "eventsCap s1 b = eventsCap s2 b"
proof (cases b)
  case (Mapping m)
  from assms(3) have d: "distinct (map (\<lambda>k. Replace k ''WS'' '''' 1)
           (filter (\<lambda>k. ToLower k \<noteq> ''xaddr'') (map fst m)))"
    by (simp add: eventsKeys_def Mapping)
  show ?thesis
    by (simp only: Mapping eventsCap_canonical [OF assms(1) d]
        eventsCap_canonical [OF assms(2) d])
qed (simp_all add: eventsCap_def)

lemma streamingCap_schedule:
  assumes "validSchedule s1" and "validSchedule s2" and "distinct (streamingKeys c)"
  shows "streamingCap s1 c = streamingCap s2 c"
proof (cases c)
  case (Mapping m)
  from assms(3) have d: "distinct (map (\<lambda>k. Replace k ''_'' '' '' (- 1)) (map fst m))"
    by (simp add: streamingKeys_def Mapping)
  show ?thesis
    by (simp only: Mapping streamingCap_canonical [OF assms(1) d]
        streamingCap_canonical [OF assms(2) d])
qed (simp_all add: streamingCap_def)

section \<open>The claims\<close>


text \<open>
  C1. When the lookup of one of the three mandatory branches (\<^verbatim>\<open>.Device.Network\<close>,
  \<^verbatim>\<open>.Events\<close>, \<^verbatim>\<open>.Media.StreamingCapabilities\<close> below the capabilities path) fails,
  \<^verbatim>\<open>GetCapabilities\<close> returns the zero-value aggregate together with a non-nil error,
  the error of a failed lookup, also when the network branch was found before.
\<close>

theorem GetCapabilities_hard_failure:
  assumes "isl (ValueForPath response (envelopeBodyPath @ ''.Device.Network'')) \<or>
           isl (ValueForPath response (envelopeBodyPath @ ''.Events'')) \<or>
           isl (ValueForPath response (envelopeBodyPath @ ''.Media.StreamingCapabilities''))"
  shows "\<exists>err. GetCapabilities sch (Inr response) = (zeroDeviceCapabilities, Some err) \<and>
           (ValueForPath response (envelopeBodyPath @ ''.Device.Network'') = Inl err \<or>
            ValueForPath response (envelopeBodyPath @ ''.Events'') = Inl err \<or>
            ValueForPath response (envelopeBodyPath @ ''.Media.StreamingCapabilities'') = Inl err)"
  using assms by (auto simp add: GetCapabilities_def split: sum.splits)

theorem GetCapabilities_hard_failure_witness:
  "ValueForPath
     (capabilitiesResponse
        [(''Device'', Mapping [(''Network'', Mapping [(''DynDNS'', String ''true'')])])])
     (envelopeBodyPath @ ''.Device.Network'') = Inr (Mapping [(''DynDNS'', String ''true'')]) \<and>
   GetCapabilities inOrder
     (Inr (capabilitiesResponse
        [(''Device'', Mapping [(''Network'', Mapping [(''DynDNS'', String ''true'')])])])) =
     (zeroDeviceCapabilities, Some (NotFoundError (envelopeBodyPath @ ''.Events'')))"
proof -
  let ?t = "capabilitiesResponse
        [(''Device'', Mapping [(''Network'', Mapping [(''DynDNS'', String ''true'')])])]"
  have n: "ValueForPath ?t (envelopeBodyPath @ ''.Device.Network'') =
      Inr (Mapping [(''DynDNS'', String ''true'')])"
    by (simp add: path_simps capabilitiesResponse_def)
  have e: "ValueForPath ?t (envelopeBodyPath @ ''.Events'') =
      Inl (NotFoundError (envelopeBodyPath @ ''.Events''))"
    by (simp add: path_simps capabilitiesResponse_def)
  have "isl (ValueForPath ?t (envelopeBodyPath @ ''.Device.Network'')) \<or>
        isl (ValueForPath ?t (envelopeBodyPath @ ''.Events'')) \<or>
        isl (ValueForPath ?t (envelopeBodyPath @ ''.Media.StreamingCapabilities''))"
    by (simp add: e)
  from GetCapabilities_hard_failure [OF this, of inOrder]
  obtain err where r: "GetCapabilities inOrder (Inr ?t) = (zeroDeviceCapabilities, Some err)"
    and c: "ValueForPath ?t (envelopeBodyPath @ ''.Device.Network'') = Inl err \<or>
            ValueForPath ?t (envelopeBodyPath @ ''.Events'') = Inl err \<or>
            ValueForPath ?t (envelopeBodyPath @ ''.Media.StreamingCapabilities'') = Inl err"
    by blast
  have "GetCapabilities inOrder (Inr ?t) =
      (zeroDeviceCapabilities, Some (NotFoundError (envelopeBodyPath @ ''.Events'')))"
    by (simp add: GetCapabilities_def n e)
  with r n show ?thesis by simp
qed

text \<open>
  C2. The end-to-end scenario: for the response whose capabilities element holds the
  network flags \<^verbatim>\<open>DynDNS="false"\<close>, \<^verbatim>\<open>IPFilter="true"\<close>, \<^verbatim>\<open>IPVersion6="false"\<close>,
  \<^verbatim>\<open>ZeroConfiguration="true"\<close> and the extension \<^verbatim>\<open>Foo="true"\<close>, the events
  \<^verbatim>\<open>WSPullPoint="true"\<close> and \<^verbatim>\<open>XAddr="http://x"\<close>, the streaming capability
  \<^verbatim>\<open>RTP_TCP="true"\<close> and no PTZ element, every run returns no error and exactly the
  aggregate with the network flags false, true, false, true, the extension
  \<open>Foo \<mapsto> true\<close>, the events \<open>PullPoint \<mapsto> true\<close>, the streaming map
  \<open>RTP TCP \<mapsto> true\<close> and PTZ false.
\<close>

theorem GetCapabilities_scenario:
  assumes "validSchedule sch"
  shows "GetCapabilities sch
     (Inr (capabilitiesResponse
       [(''Device'', Mapping [(''Network'', Mapping
           [(''DynDNS'', String ''false''), (''IPFilter'', String ''true''),
            (''IPVersion6'', String ''false''), (''ZeroConfiguration'', String ''true''),
            (''Extension'', Mapping [(''Foo'', String ''true'')])])]),
        (''Events'', Mapping [(''WSPullPoint'', String ''true''), (''XAddr'', String ''http://x'')]),
        (''Media'', Mapping [(''StreamingCapabilities'',
           Mapping [(''RTP_TCP'', String ''true'')])])])) =
     (\<lparr>Network = \<lparr>DynDNS = False, IPFilter = True, IPVersion6 = False, ZeroConfig = True,
                   Extension = Some [''Foo'' \<mapsto> True]\<rparr>,
       Events = Some [''PullPoint'' \<mapsto> True],
       Streaming = Some [''RTP TCP'' \<mapsto> True],
       PTZ = False\<rparr>, None)"
proof -
  have x: "fold extensionStep (extensionOrder sch [(''Foo'', String ''true'')]) Map.empty =
      [''Foo'' \<mapsto> True]"
    using extension_canonical [OF assms, of "[(''Foo'', String ''true'')]"]
    by (simp add: interfaceToBool_def ToLower_def lower_char_def)
  have e: "eventsCap sch
      (Mapping [(''WSPullPoint'', String ''true''), (''XAddr'', String ''http://x'')]) =
      [''PullPoint'' \<mapsto> True]"
    using eventsCap_canonical [OF assms,
        of "[(''WSPullPoint'', String ''true''), (''XAddr'', String ''http://x'')]"]
    by (simp add: interfaceToBool_def ToLower_def lower_char_def)
  have s: "streamingCap sch (Mapping [(''RTP_TCP'', String ''true'')]) = [''RTP TCP'' \<mapsto> True]"
    using streamingCap_canonical [OF assms, of "[(''RTP_TCP'', String ''true'')]"]
    by (simp add: interfaceToBool_def ToLower_def lower_char_def)
  show ?thesis
    by (simp add: GetCapabilities_def path_simps capabilitiesResponse_def netCap_def ptzCap_def
        mapIndex_def x e s interfaceToBool_def ToLower_def lower_char_def)
qed

theorem GetCapabilities_scenario_witness:
  "validSchedule inOrder \<and>
   GetCapabilities inOrder
     (Inr (capabilitiesResponse
       [(''Device'', Mapping [(''Network'', Mapping
           [(''DynDNS'', String ''false''), (''IPFilter'', String ''true''),
            (''IPVersion6'', String ''false''), (''ZeroConfiguration'', String ''true''),
            (''Extension'', Mapping [(''Foo'', String ''true'')])])]),
        (''Events'', Mapping [(''WSPullPoint'', String ''true''), (''XAddr'', String ''http://x'')]),
        (''Media'', Mapping [(''StreamingCapabilities'',
           Mapping [(''RTP_TCP'', String ''true'')])])])) =
     (\<lparr>Network = \<lparr>DynDNS = False, IPFilter = True, IPVersion6 = False, ZeroConfig = True,
                   Extension = Some [''Foo'' \<mapsto> True]\<rparr>,
       Events = Some [''PullPoint'' \<mapsto> True],
       Streaming = Some [''RTP TCP'' \<mapsto> True],
       PTZ = False\<rparr>, None)"
  using GetCapabilities_scenario [OF validSchedule_inOrder] validSchedule_inOrder by simp

text \<open>
  C9. Whenever the three mandatory lookups succeed the call succeeds, whatever kind of
  node they find, and on every successful call the events and the streaming map are
  allocated maps, never nil; a branch that is not a map (a scalar at \<^verbatim>\<open>.Events\<close>, say)
  gives the empty map.
\<close>

theorem GetCapabilities_maps_initialised:
  "(ValueForPath r (envelopeBodyPath @ ''.Device.Network'') = Inr a \<and>
    ValueForPath r (envelopeBodyPath @ ''.Events'') = Inr b \<and>
    ValueForPath r (envelopeBodyPath @ ''.Media.StreamingCapabilities'') = Inr c
      \<longrightarrow> snd (GetCapabilities sch (Inr r)) = None) \<and>
   (snd (GetCapabilities sch (Inr r)) = None \<longrightarrow>
      (\<exists>ev st. Events (fst (GetCapabilities sch (Inr r))) = Some ev \<and>
         Streaming (fst (GetCapabilities sch (Inr r))) = Some st \<and>
         (\<forall>v. ValueForPath r (envelopeBodyPath @ ''.Events'') = Inr v \<and>
              (\<forall>m. v \<noteq> Mapping m) \<longrightarrow> ev = Map.empty) \<and>
         (\<forall>v. ValueForPath r (envelopeBodyPath @ ''.Media.StreamingCapabilities'') = Inr v \<and>
              (\<forall>m. v \<noteq> Mapping m) \<longrightarrow> st = Map.empty)))"
proof (intro conjI impI)
  assume "ValueForPath r (envelopeBodyPath @ ''.Device.Network'') = Inr a \<and>
    ValueForPath r (envelopeBodyPath @ ''.Events'') = Inr b \<and>
    ValueForPath r (envelopeBodyPath @ ''.Media.StreamingCapabilities'') = Inr c"
  then show "snd (GetCapabilities sch (Inr r)) = None"
    by (simp add: GetCapabilities_success)
next
  assume "snd (GetCapabilities sch (Inr r)) = None"
  then obtain a b c where
    l: "ValueForPath r (envelopeBodyPath @ ''.Device.Network'') = Inr a"
       "ValueForPath r (envelopeBodyPath @ ''.Events'') = Inr b"
       "ValueForPath r (envelopeBodyPath @ ''.Media.StreamingCapabilities'') = Inr c"
    unfolding GetCapabilities_success_iff by blast
  show "\<exists>ev st. Events (fst (GetCapabilities sch (Inr r))) = Some ev \<and>
         Streaming (fst (GetCapabilities sch (Inr r))) = Some st \<and>
         (\<forall>v. ValueForPath r (envelopeBodyPath @ ''.Events'') = Inr v \<and>
              (\<forall>m. v \<noteq> Mapping m) \<longrightarrow> ev = Map.empty) \<and>
         (\<forall>v. ValueForPath r (envelopeBodyPath @ ''.Media.StreamingCapabilities'') = Inr v \<and>
              (\<forall>m. v \<noteq> Mapping m) \<longrightarrow> st = Map.empty)"
    by (simp add: GetCapabilities_success [OF l] l eventsCap_not_Mapping
        streamingCap_not_Mapping)
qed

theorem GetCapabilities_maps_initialised_witness:
  "ValueForPath
     (capabilitiesResponse
        [(''Device'', Mapping [(''Network'', Mapping [])]), (''Events'', String ''none''),
         (''Media'', Mapping [(''StreamingCapabilities'', Number 3)])])
     (envelopeBodyPath @ ''.Events'') = Inr (String ''none'') \<and>
   snd (GetCapabilities inOrder (Inr (capabilitiesResponse
        [(''Device'', Mapping [(''Network'', Mapping [])]), (''Events'', String ''none''),
         (''Media'', Mapping [(''StreamingCapabilities'', Number 3)])]))) = None \<and>
   Events (fst (GetCapabilities inOrder (Inr (capabilitiesResponse
        [(''Device'', Mapping [(''Network'', Mapping [])]), (''Events'', String ''none''),
         (''Media'', Mapping [(''StreamingCapabilities'', Number 3)])])))) = Some Map.empty \<and>
   Streaming (fst (GetCapabilities inOrder (Inr (capabilitiesResponse
        [(''Device'', Mapping [(''Network'', Mapping [])]), (''Events'', String ''none''),
         (''Media'', Mapping [(''StreamingCapabilities'', Number 3)])])))) = Some Map.empty"
proof -
  let ?t = "capabilitiesResponse
        [(''Device'', Mapping [(''Network'', Mapping [])]), (''Events'', String ''none''),
         (''Media'', Mapping [(''StreamingCapabilities'', Number 3)])]"
  have n: "ValueForPath ?t (envelopeBodyPath @ ''.Device.Network'') = Inr (Mapping [])"
    by (simp add: path_simps capabilitiesResponse_def)
  have e: "ValueForPath ?t (envelopeBodyPath @ ''.Events'') = Inr (String ''none'')"
    by (simp add: path_simps capabilitiesResponse_def)
  have s: "ValueForPath ?t (envelopeBodyPath @ ''.Media.StreamingCapabilities'') = Inr (Number 3)"
    by (simp add: path_simps capabilitiesResponse_def)
  note w = GetCapabilities_maps_initialised
    [where r = ?t and sch = inOrder and a = "Mapping []" and b = "String ''none''"
       and c = "Number 3"]
  from w n e s have ok: "snd (GetCapabilities inOrder (Inr ?t)) = None"
    by blast
  with w obtain ev st where
    "Events (fst (GetCapabilities inOrder (Inr ?t))) = Some ev"
    "Streaming (fst (GetCapabilities inOrder (Inr ?t))) = Some st"
    "\<forall>v. ValueForPath ?t (envelopeBodyPath @ ''.Events'') = Inr v \<and>
              (\<forall>m. v \<noteq> Mapping m) \<longrightarrow> ev = Map.empty"
    "\<forall>v. ValueForPath ?t (envelopeBodyPath @ ''.Media.StreamingCapabilities'') = Inr v \<and>
              (\<forall>m. v \<noteq> Mapping m) \<longrightarrow> st = Map.empty"
    by blast
  with e s ok show ?thesis by simp
qed

text \<open>
  C3, as stated, fails for the result of the call: a response with a map at the network
  branch whose \<^verbatim>\<open>DynDNS\<close> entry is \<^verbatim>\<open>"true"\<close>, and with no events branch, makes the call
  return the zero-value aggregate, whose \<open>DynDNS\<close> flag is false.
\<close>

theorem DynDNS_true_but_false:
  "ValueForPath
     (capabilitiesResponse
        [(''Device'', Mapping [(''Network'', Mapping [(''DynDNS'', String ''true'')])]),
         (''Media'', Mapping [(''StreamingCapabilities'', Mapping [])])])
     (envelopeBodyPath @ ''.Device.Network'') = Inr (Mapping [(''DynDNS'', String ''true'')]) \<and>
   interfaceToBool (String ''true'') \<and>
   \<not> DynDNS (Network (fst (GetCapabilities inOrder (Inr (capabilitiesResponse
        [(''Device'', Mapping [(''Network'', Mapping [(''DynDNS'', String ''true'')])]),
         (''Media'', Mapping [(''StreamingCapabilities'', Mapping [])])])))))"
  by (simp add: path_simps run_simps inOrder_def)

text \<open>
  C3, amended. The boolean coercion helper is total and returns true exactly when the
  lower-cased string form of its argument is \<^verbatim>\<open>"true"\<close>, that is, for the sixteen case
  variants of the word and for nothing else: \<^verbatim>\<open>"true"\<close> and \<^verbatim>\<open>"TRUE"\<close> give true, \<^verbatim>\<open>"1"\<close>
  and the empty string give false. For a map at the network branch whose \<^verbatim>\<open>DynDNS\<close> entry
  is the string \<open>s\<close>, the network capabilities built from it have \<open>DynDNS\<close> true exactly
  when \<open>s\<close> is such a variant, and so has the aggregate of every successful call; for
  any other string the returned flag is false, whether the call succeeds or not.
\<close>

theorem interfaceToBool_true_iff:
  "interfaceToBool v = (ToLower (interfaceToString v) = ''true'') \<and>
   interfaceToBool (String s) =
     (\<exists>a b c d. s = [a, b, c, d] \<and> a \<in> {CHR ''t'', CHR ''T''} \<and> b \<in> {CHR ''r'', CHR ''R''} \<and>
        c \<in> {CHR ''u'', CHR ''U''} \<and> d \<in> {CHR ''e'', CHR ''E''}) \<and>
   interfaceToBool (String ''true'') \<and> interfaceToBool (String ''TRUE'') \<and>
   \<not> interfaceToBool (String ''1'') \<and> \<not> interfaceToBool (String '''') \<and>
   (map_of m ''DynDNS'' = Some (String s) \<longrightarrow>
      DynDNS (netCap sch (Mapping m)) = interfaceToBool (String s)) \<and>
   (ValueForPath r (envelopeBodyPath @ ''.Device.Network'') = Inr (Mapping m) \<and>
    map_of m ''DynDNS'' = Some (String s) \<longrightarrow>
      (snd (GetCapabilities sch (Inr r)) = None \<longrightarrow>
         DynDNS (Network (fst (GetCapabilities sch (Inr r)))) = interfaceToBool (String s)) \<and>
      (\<not> interfaceToBool (String s) \<longrightarrow>
         \<not> DynDNS (Network (fst (GetCapabilities sch (Inr r))))))"
proof (intro conjI impI)
  show "interfaceToBool v = (ToLower (interfaceToString v) = ''true'')"
    by (simp add: interfaceToBool_def)
  show "interfaceToBool (String s) =
     (\<exists>a b c d. s = [a, b, c, d] \<and> a \<in> {CHR ''t'', CHR ''T''} \<and> b \<in> {CHR ''r'', CHR ''R''} \<and>
        c \<in> {CHR ''u'', CHR ''U''} \<and> d \<in> {CHR ''e'', CHR ''E''})"
    by (simp only: interfaceToBool_def interfaceToString.simps ToLower_true_iff)
  show "interfaceToBool (String ''true'')" "interfaceToBool (String ''TRUE'')"
    "\<not> interfaceToBool (String ''1'')" "\<not> interfaceToBool (String '''')"
    by (simp_all add: interfaceToBool_def ToLower_def lower_char_def)
next
  assume "map_of m ''DynDNS'' = Some (String s)"
  then show "DynDNS (netCap sch (Mapping m)) = interfaceToBool (String s)"
    by (simp add: netCap_DynDNS interfaceToBool_def)
next
  assume a: "ValueForPath r (envelopeBodyPath @ ''.Device.Network'') = Inr (Mapping m) \<and>
    map_of m ''DynDNS'' = Some (String s)"
  assume "snd (GetCapabilities sch (Inr r)) = None"
  then obtain a' b c where
    l: "ValueForPath r (envelopeBodyPath @ ''.Device.Network'') = Inr a'"
       "ValueForPath r (envelopeBodyPath @ ''.Events'') = Inr b"
       "ValueForPath r (envelopeBodyPath @ ''.Media.StreamingCapabilities'') = Inr c"
    unfolding GetCapabilities_success_iff by blast
  with a have "a' = Mapping m" by simp
  with a show "DynDNS (Network (fst (GetCapabilities sch (Inr r)))) = interfaceToBool (String s)"
    by (simp add: GetCapabilities_success [OF l] netCap_DynDNS interfaceToBool_def)
next
  assume a: "ValueForPath r (envelopeBodyPath @ ''.Device.Network'') = Inr (Mapping m) \<and>
    map_of m ''DynDNS'' = Some (String s)"
  assume f: "\<not> interfaceToBool (String s)"
  show "\<not> DynDNS (Network (fst (GetCapabilities sch (Inr r))))"
    using a f
    by (auto simp add: GetCapabilities_def netCap_DynDNS interfaceToBool_def
        zeroDeviceCapabilities_def zeroNetworkCapabilities_def split: sum.splits)
qed

theorem interfaceToBool_true_iff_witness:
  "DynDNS (Network (fst (GetCapabilities inOrder (Inr (capabilitiesResponse
      [(''Device'', Mapping [(''Network'', Mapping [(''DynDNS'', String ''TRUE'')])]),
       (''Events'', Mapping []),
       (''Media'', Mapping [(''StreamingCapabilities'', Mapping [])])]))))) \<and>
   \<not> DynDNS (Network (fst (GetCapabilities inOrder (Inr (capabilitiesResponse
      [(''Device'', Mapping [(''Network'', Mapping [(''DynDNS'', String ''1'')])]),
       (''Events'', Mapping []),
       (''Media'', Mapping [(''StreamingCapabilities'', Mapping [])])])))))"
proof -
  let ?t = "\<lambda>s. capabilitiesResponse
      [(''Device'', Mapping [(''Network'', Mapping [(''DynDNS'', String s)])]),
       (''Events'', Mapping []),
       (''Media'', Mapping [(''StreamingCapabilities'', Mapping [])])]"
  have n: "ValueForPath (?t s) (envelopeBodyPath @ ''.Device.Network'') =
      Inr (Mapping [(''DynDNS'', String s)])" for s
    by (simp add: path_simps capabilitiesResponse_def)
  have k: "map_of [(''DynDNS'', String s)] ''DynDNS'' = Some (String s)" for s
    by simp
  have ok: "snd (GetCapabilities inOrder (Inr (?t s))) = None" for s
    unfolding GetCapabilities_success_iff by (simp add: path_simps capabilitiesResponse_def)
  have up: "interfaceToBool (String ''TRUE'')" and one: "\<not> interfaceToBool (String ''1'')"
    by (simp_all add: interfaceToBool_def ToLower_def lower_char_def)
  from interfaceToBool_true_iff
    [where r = "?t ''TRUE''" and sch = inOrder and m = "[(''DynDNS'', String ''TRUE'')]"
       and s = "''TRUE''"] n k ok up
  have 1: "DynDNS (Network (fst (GetCapabilities inOrder (Inr (?t ''TRUE'')))))"
    by blast
  from interfaceToBool_true_iff
    [where r = "?t ''1''" and sch = inOrder and m = "[(''DynDNS'', String ''1'')]"
       and s = "''1''"] n k one
  have 2: "\<not> DynDNS (Network (fst (GetCapabilities inOrder (Inr (?t ''1'')))))"
    by blast
  from 1 2 show ?thesis by simp
qed

text \<open>
  C6. The code at the input the claim names: the network branch exists and is a string,
  not a map. The call succeeds and the network capabilities are the zero value, whose
  extension map is nil; the events and the streaming map of the same result are
  allocated.
\<close>

theorem Extension_nil_when_Network_not_Mapping:
  "GetCapabilities inOrder (Inr (capabilitiesResponse
      [(''Device'', Mapping [(''Network'', String '''')]),
       (''Events'', Mapping [(''WSPullPoint'', String ''true'')]),
       (''Media'', Mapping [(''StreamingCapabilities'', Mapping [])])])) =
     (\<lparr>Network = \<lparr>DynDNS = False, IPFilter = False, IPVersion6 = False, ZeroConfig = False,
                   Extension = None\<rparr>,
       Events = Some [''PullPoint'' \<mapsto> True],
       Streaming = Some Map.empty,
       PTZ = False\<rparr>, None)"
  by (simp add: path_simps run_simps inOrder_def)

text \<open>
  C7, as stated, fails: a response with a PTZ element (here nil) and no events branch
  makes the call return the zero-value aggregate, whose PTZ flag is false.
\<close>

theorem PTZ_present_but_false:
  "ValueForPath
     (capabilitiesResponse
        [(''Device'', Mapping [(''Network'', Mapping [])]),
         (''Media'', Mapping [(''StreamingCapabilities'', Mapping [])]),
         (''PTZ'', Null)])
     (envelopeBodyPath @ ''.PTZ'') = Inr Null \<and>
   \<not> PTZ (fst (GetCapabilities inOrder (Inr (capabilitiesResponse
        [(''Device'', Mapping [(''Network'', Mapping [])]),
         (''Media'', Mapping [(''StreamingCapabilities'', Mapping [])]),
         (''PTZ'', Null)]))))"
  by (simp add: path_simps run_simps inOrder_def)

text \<open>
  C7, amended. When the three mandatory lookups succeed, the call returns no error and
  the PTZ flag is true exactly when the lookup of \<^verbatim>\<open>.PTZ\<close> succeeds, whatever value it
  finds. When the lookup of \<^verbatim>\<open>.PTZ\<close> fails the flag is false on every path, and the error
  of that lookup is never the error the call returns.
\<close>

theorem GetCapabilities_PTZ_presence:
  "(ValueForPath r (envelopeBodyPath @ ''.Device.Network'') = Inr a \<and>
    ValueForPath r (envelopeBodyPath @ ''.Events'') = Inr b \<and>
    ValueForPath r (envelopeBodyPath @ ''.Media.StreamingCapabilities'') = Inr c \<longrightarrow>
      snd (GetCapabilities sch (Inr r)) = None \<and>
      PTZ (fst (GetCapabilities sch (Inr r))) =
        (\<exists>v. ValueForPath r (envelopeBodyPath @ ''.PTZ'') = Inr v)) \<and>
   (ValueForPath r (envelopeBodyPath @ ''.PTZ'') = Inl e \<longrightarrow>
      \<not> PTZ (fst (GetCapabilities sch (Inr r))) \<and>
      snd (GetCapabilities sch (Inr r)) \<noteq> Some e)"
proof (intro conjI impI)
  assume l: "ValueForPath r (envelopeBodyPath @ ''.Device.Network'') = Inr a \<and>
    ValueForPath r (envelopeBodyPath @ ''.Events'') = Inr b \<and>
    ValueForPath r (envelopeBodyPath @ ''.Media.StreamingCapabilities'') = Inr c"
  then show "snd (GetCapabilities sch (Inr r)) = None"
    by (simp add: GetCapabilities_success)
  from l show "PTZ (fst (GetCapabilities sch (Inr r))) =
        (\<exists>v. ValueForPath r (envelopeBodyPath @ ''.PTZ'') = Inr v)"
    by (simp add: GetCapabilities_success ptzCap_iff)
next
  assume p: "ValueForPath r (envelopeBodyPath @ ''.PTZ'') = Inl e"
  show "\<not> PTZ (fst (GetCapabilities sch (Inr r)))"
  proof (cases "snd (GetCapabilities sch (Inr r))")
    case None
    then obtain a b c where
      l: "ValueForPath r (envelopeBodyPath @ ''.Device.Network'') = Inr a"
         "ValueForPath r (envelopeBodyPath @ ''.Events'') = Inr b"
         "ValueForPath r (envelopeBodyPath @ ''.Media.StreamingCapabilities'') = Inr c"
      unfolding GetCapabilities_success_iff by blast
    show ?thesis by (simp add: GetCapabilities_success [OF l] ptzCap_iff p)
  next
    case (Some e')
    then show ?thesis by (simp add: GetCapabilities_failure_PTZ)
  qed
  have "e = NotFoundError (envelopeBodyPath @ ''.PTZ'')"
    using p by (rule ValueForPath_error)
  then show "snd (GetCapabilities sch (Inr r)) \<noteq> Some e"
    using GetCapabilities_error [of sch r e] by auto
qed

theorem GetCapabilities_PTZ_presence_witness:
  "GetCapabilities inOrder (Inr (capabilitiesResponse
      [(''Device'', Mapping [(''Network'', Mapping [])]), (''Events'', Mapping []),
       (''Media'', Mapping [(''StreamingCapabilities'', Mapping [])]), (''PTZ'', Null)])) =
     (\<lparr>Network = netCap inOrder (Mapping []), Events = Some Map.empty,
       Streaming = Some Map.empty, PTZ = True\<rparr>, None) \<and>
   \<not> PTZ (fst (GetCapabilities inOrder (Inr (capabilitiesResponse
      [(''Device'', Mapping [(''Network'', Mapping [])]), (''Events'', Mapping []),
       (''Media'', Mapping [(''StreamingCapabilities'', Mapping [])])])))) \<and>
   snd (GetCapabilities inOrder (Inr (capabilitiesResponse
      [(''Device'', Mapping [(''Network'', Mapping [])]), (''Events'', Mapping []),
       (''Media'', Mapping [(''StreamingCapabilities'', Mapping [])])]))) = None"
proof -
  let ?p = "capabilitiesResponse
      [(''Device'', Mapping [(''Network'', Mapping [])]), (''Events'', Mapping []),
       (''Media'', Mapping [(''StreamingCapabilities'', Mapping [])]), (''PTZ'', Null)]"
  let ?q = "capabilitiesResponse
      [(''Device'', Mapping [(''Network'', Mapping [])]), (''Events'', Mapping []),
       (''Media'', Mapping [(''StreamingCapabilities'', Mapping [])])]"
  have lp: "ValueForPath ?p (envelopeBodyPath @ ''.Device.Network'') = Inr (Mapping []) \<and>
      ValueForPath ?p (envelopeBodyPath @ ''.Events'') = Inr (Mapping []) \<and>
      ValueForPath ?p (envelopeBodyPath @ ''.Media.StreamingCapabilities'') = Inr (Mapping [])"
    by (simp add: path_simps capabilitiesResponse_def)
  have lq: "ValueForPath ?q (envelopeBodyPath @ ''.Device.Network'') = Inr (Mapping []) \<and>
      ValueForPath ?q (envelopeBodyPath @ ''.Events'') = Inr (Mapping []) \<and>
      ValueForPath ?q (envelopeBodyPath @ ''.Media.StreamingCapabilities'') = Inr (Mapping [])"
    by (simp add: path_simps capabilitiesResponse_def)
  have pp: "ValueForPath ?p (envelopeBodyPath @ ''.PTZ'') = Inr Null"
    by (simp add: path_simps capabilitiesResponse_def)
  have pq: "ValueForPath ?q (envelopeBodyPath @ ''.PTZ'') =
      Inl (NotFoundError (envelopeBodyPath @ ''.PTZ''))"
    by (simp add: path_simps capabilitiesResponse_def)
  from GetCapabilities_PTZ_presence
    [where r = ?p and sch = inOrder and a = "Mapping []" and b = "Mapping []"
       and c = "Mapping []"] lp pp
  have 1: "snd (GetCapabilities inOrder (Inr ?p)) = None \<and>
      PTZ (fst (GetCapabilities inOrder (Inr ?p)))"
    by simp
  from GetCapabilities_PTZ_presence
    [where r = ?q and sch = inOrder and a = "Mapping []" and b = "Mapping []"
       and c = "Mapping []" and e = "NotFoundError (envelopeBodyPath @ ''.PTZ'')"] lq pq
  have 2: "snd (GetCapabilities inOrder (Inr ?q)) = None \<and>
      \<not> PTZ (fst (GetCapabilities inOrder (Inr ?q)))"
    by simp
  have 3: "GetCapabilities inOrder (Inr ?p) =
     (\<lparr>Network = netCap inOrder (Mapping []), Events = Some Map.empty,
       Streaming = Some Map.empty, PTZ = PTZ (fst (GetCapabilities inOrder (Inr ?p)))\<rparr>, None)"
    using lp by (simp add: GetCapabilities_def eventsCap_def streamingCap_def inOrder_def)
  from 1 2 3 show ?thesis by simp
qed

text \<open>
  C4, as stated, fails: when the events branch holds the keys
  \<^verbatim>\<open>WSNotificationSubscription\<close> and \<^verbatim>\<open>WSWSNotificationSubscription\<close>, the second is
  renamed to the first, so the resulting events map does contain the original key.
\<close>

theorem Events_original_key_kept:
  "GetCapabilities inOrder (Inr (capabilitiesResponse
      [(''Device'', Mapping [(''Network'', Mapping [])]),
       (''Events'', Mapping [(''WSNotificationSubscription'', String ''true''),
                            (''WSWSNotificationSubscription'', String ''false'')]),
       (''Media'', Mapping [(''StreamingCapabilities'', Mapping [])])])) =
     (\<lparr>Network = netCap inOrder (Mapping []),
       Events = Some [''NotificationSubscription'' \<mapsto> True,
                      ''WSNotificationSubscription'' \<mapsto> False],
       Streaming = Some Map.empty, PTZ = False\<rparr>, None)"
  by (simp add: path_simps GetCapabilities_def eventsCap_def streamingCap_def ptzCap_def
      eventsStep_def interfaceToBool_def ToLower_def lower_char_def capabilitiesResponse_def
      inOrder_def)

text \<open>
  C4, amended. On a successful call whose events branch is a map, every wire key whose
  lower-cased form is \<^verbatim>\<open>xaddr\<close> is skipped and every other key is stored with the first
  occurrence of \<^verbatim>\<open>WS\<close> removed: the keys of the resulting events map are exactly these
  renamed keys. Every stored value is the boolean coercion of the value of a wire key with
  that renamed form, and of the key itself when no other stored wire key shares the
  renamed form. If the branch has the key \<^verbatim>\<open>WSNotificationSubscription\<close>, the result has
  the key \<^verbatim>\<open>NotificationSubscription\<close>, and it has the original key exactly when some
  stored wire key is renamed to it.
\<close>

theorem Events_keys_renamed:
  assumes "validSchedule sch"
    and "snd (GetCapabilities sch (Inr r)) = None"
    and "ValueForPath r (envelopeBodyPath @ ''.Events'') = Inr (Mapping m)"
  shows "\<exists>ev. Events (fst (GetCapabilities sch (Inr r))) = Some ev \<and>
     dom ev = (\<lambda>k. Replace k ''WS'' '''' 1) ` {k \<in> fst ` set m. ToLower k \<noteq> ''xaddr''} \<and>
     (\<forall>k' b. ev k' = Some b \<longrightarrow>
        (\<exists>k v. (k, v) \<in> set m \<and> ToLower k \<noteq> ''xaddr'' \<and> Replace k ''WS'' '''' 1 = k' \<and>
           b = interfaceToBool v)) \<and>
     (\<forall>k v. (k, v) \<in> set m \<and> ToLower k \<noteq> ''xaddr'' \<and> uniqueKeys m \<and>
        (\<forall>k2 \<in> fst ` set m. ToLower k2 \<noteq> ''xaddr'' \<and>
           Replace k2 ''WS'' '''' 1 = Replace k ''WS'' '''' 1 \<longrightarrow> k2 = k) \<longrightarrow>
        ev (Replace k ''WS'' '''' 1) = Some (interfaceToBool v)) \<and>
     (''WSNotificationSubscription'' \<in> fst ` set m \<longrightarrow>
        ''NotificationSubscription'' \<in> dom ev \<and>
        (''WSNotificationSubscription'' \<in> dom ev \<longleftrightarrow>
           (\<exists>k \<in> fst ` set m. ToLower k \<noteq> ''xaddr'' \<and>
              Replace k ''WS'' '''' 1 = ''WSNotificationSubscription'')))"
proof -
  let ?ren = "\<lambda>k. Replace k ''WS'' '''' 1"
  let ?ev = "eventsCap sch (Mapping m)"
  from assms(2) obtain a b c where
    l: "ValueForPath r (envelopeBodyPath @ ''.Device.Network'') = Inr a"
       "ValueForPath r (envelopeBodyPath @ ''.Events'') = Inr b"
       "ValueForPath r (envelopeBodyPath @ ''.Media.StreamingCapabilities'') = Inr c"
    unfolding GetCapabilities_success_iff by blast
  with assms(3) have b: "b = Mapping m" by simp
  have e: "Events (fst (GetCapabilities sch (Inr r))) = Some ?ev"
    by (simp add: GetCapabilities_success [OF l] b)
  have d: "dom ?ev = ?ren ` {k \<in> fst ` set m. ToLower k \<noteq> ''xaddr''}"
    using eventsCap_dom [OF assms(1), of "Mapping m"] by simp
  have v: "\<exists>k v. (k, v) \<in> set m \<and> ToLower k \<noteq> ''xaddr'' \<and> ?ren k = k' \<and>
      b' = interfaceToBool v" if "?ev k' = Some b'" for k' b'
    using eventsCap_value [OF assms(1) that] by simp
  have u: "?ev (?ren k) = Some (interfaceToBool x)"
    if h: "(k, x) \<in> set m" "ToLower k \<noteq> ''xaddr''" "uniqueKeys m"
      "\<forall>k2 \<in> fst ` set m. ToLower k2 \<noteq> ''xaddr'' \<and> ?ren k2 = ?ren k \<longrightarrow> k2 = k" for k x
  proof -
    have "?ren k \<in> dom ?ev"
      unfolding d using h(1,2) by force
    then obtain b' where s: "?ev (?ren k) = Some b'" by blast
    from v [OF s] obtain k2 x2 where
      k2: "(k2, x2) \<in> set m" "ToLower k2 \<noteq> ''xaddr''" "?ren k2 = ?ren k"
        "b' = interfaceToBool x2"
      by blast
    from k2(1) have "k2 \<in> fst ` set m" by force
    with h(4) k2(2,3) have "k2 = k" by blast
    with k2(1) h(1,3) have "x2 = x"
      unfolding uniqueKeys_def by (simp add: eq_key_imp_eq_value)
    with s k2(4) show ?thesis by simp
  qed
  have o: "w \<in> dom ?ev \<longleftrightarrow>
      (\<exists>k \<in> fst ` set m. ToLower k \<noteq> ''xaddr'' \<and> ?ren k = w)" for w
    by (simp only: d mem_image_filter)
  have n: "''NotificationSubscription'' \<in> dom ?ev"
    if "''WSNotificationSubscription'' \<in> fst ` set m"
  proof -
    have "ToLower ''WSNotificationSubscription'' \<noteq> ''xaddr'' \<and>
        ?ren ''WSNotificationSubscription'' = ''NotificationSubscription''"
      by (simp add: ToLower_def)
    then show ?thesis
      unfolding o by (rule bexI [OF _ that])
  qed
  have u': "\<forall>k v. (k, v) \<in> set m \<and> ToLower k \<noteq> ''xaddr'' \<and> uniqueKeys m \<and>
        (\<forall>k2 \<in> fst ` set m. ToLower k2 \<noteq> ''xaddr'' \<and> ?ren k2 = ?ren k \<longrightarrow> k2 = k) \<longrightarrow>
        ?ev (?ren k) = Some (interfaceToBool v)"
    using u by simp
  have v': "\<forall>k' b. ?ev k' = Some b \<longrightarrow>
        (\<exists>k v. (k, v) \<in> set m \<and> ToLower k \<noteq> ''xaddr'' \<and> ?ren k = k' \<and>
           b = interfaceToBool v)"
    using v by simp
  have n': "''WSNotificationSubscription'' \<in> fst ` set m \<longrightarrow>
        ''NotificationSubscription'' \<in> dom ?ev \<and>
        (''WSNotificationSubscription'' \<in> dom ?ev \<longleftrightarrow>
           (\<exists>k \<in> fst ` set m. ToLower k \<noteq> ''xaddr'' \<and>
              ?ren k = ''WSNotificationSubscription''))"
  proof (intro impI conjI)
    assume "''WSNotificationSubscription'' \<in> fst ` set m"
    then show "''NotificationSubscription'' \<in> dom ?ev" by (rule n)
    show "''WSNotificationSubscription'' \<in> dom ?ev \<longleftrightarrow>
           (\<exists>k \<in> fst ` set m. ToLower k \<noteq> ''xaddr'' \<and>
              ?ren k = ''WSNotificationSubscription'')"
      by (rule o)
  qed
  show ?thesis
    by (rule exI [of _ ?ev]) (intro conjI e d v' u' n')
qed

theorem Events_keys_renamed_witness:
  "validSchedule inOrder \<and>
   snd (GetCapabilities inOrder (Inr (capabilitiesResponse
      [(''Device'', Mapping [(''Network'', Mapping [])]),
       (''Events'', Mapping [(''WSNotificationSubscription'', String ''true''),
                            (''XAddr'', String ''http://x'')]),
       (''Media'', Mapping [(''StreamingCapabilities'', Mapping [])])]))) = None \<and>
   (\<exists>ev. Events (fst (GetCapabilities inOrder (Inr (capabilitiesResponse
      [(''Device'', Mapping [(''Network'', Mapping [])]),
       (''Events'', Mapping [(''WSNotificationSubscription'', String ''true''),
                            (''XAddr'', String ''http://x'')]),
       (''Media'', Mapping [(''StreamingCapabilities'', Mapping [])])])))) = Some ev \<and>
      dom ev = {''NotificationSubscription''} \<and>
      ev ''NotificationSubscription'' = Some True)"
proof -
  let ?m = "[(''WSNotificationSubscription'', String ''true''), (''XAddr'', String ''http://x'')]"
  let ?t = "capabilitiesResponse
      [(''Device'', Mapping [(''Network'', Mapping [])]),
       (''Events'', Mapping ?m),
       (''Media'', Mapping [(''StreamingCapabilities'', Mapping [])])]"
  have ok: "snd (GetCapabilities inOrder (Inr ?t)) = None"
    unfolding GetCapabilities_success_iff by (simp add: path_simps capabilitiesResponse_def)
  have e: "ValueForPath ?t (envelopeBodyPath @ ''.Events'') = Inr (Mapping ?m)"
    by (simp add: path_simps capabilitiesResponse_def)
  from Events_keys_renamed [OF validSchedule_inOrder ok e]
  obtain ev where ev: "Events (fst (GetCapabilities inOrder (Inr ?t))) = Some ev"
    and d: "dom ev = (\<lambda>k. Replace k ''WS'' '''' 1) `
        {k \<in> fst ` set ?m. ToLower k \<noteq> ''xaddr''}"
    and u: "\<forall>k v. (k, v) \<in> set ?m \<and> ToLower k \<noteq> ''xaddr'' \<and> uniqueKeys ?m \<and>
        (\<forall>k2 \<in> fst ` set ?m. ToLower k2 \<noteq> ''xaddr'' \<and>
           Replace k2 ''WS'' '''' 1 = Replace k ''WS'' '''' 1 \<longrightarrow> k2 = k) \<longrightarrow>
        ev (Replace k ''WS'' '''' 1) = Some (interfaceToBool v)"
    by (elim exE conjE)
  have x: "ToLower ''XAddr'' = ''xaddr''"
    and w: "ToLower ''WSNotificationSubscription'' \<noteq> ''xaddr''"
    by (simp_all add: ToLower_def lower_char_def)
  have "{k \<in> fst ` set ?m. ToLower k \<noteq> ''xaddr''} = {''WSNotificationSubscription''}"
    using x w by auto
  then have "dom ev = {''NotificationSubscription''}"
    unfolding d by simp
  moreover have "ev ''NotificationSubscription'' = Some True"
    using u [rule_format, of "''WSNotificationSubscription''" "String ''true''"]
    by (simp add: x w uniqueKeys_def interfaceToBool_def ToLower_def lower_char_def)
  ultimately show ?thesis
    using ev ok validSchedule_inOrder by simp
qed

text \<open>
  C5, as stated, fails: the events key \<^verbatim>\<open>WSXAddr\<close> is not skipped and is stored as
  \<^verbatim>\<open>XAddr\<close>, and the streaming loop, which has no filter, stores the key \<^verbatim>\<open>XAddr\<close> as it
  is; both lower-case to \<^verbatim>\<open>xaddr\<close>.
\<close>

theorem xaddr_key_in_Events_and_Streaming:
  "GetCapabilities inOrder (Inr (capabilitiesResponse
      [(''Device'', Mapping [(''Network'', Mapping [])]),
       (''Events'', Mapping [(''WSXAddr'', String ''true'')]),
       (''Media'', Mapping [(''StreamingCapabilities'',
          Mapping [(''XAddr'', String ''http://x'')])])])) =
     (\<lparr>Network = netCap inOrder (Mapping []),
       Events = Some [''XAddr'' \<mapsto> True],
       Streaming = Some [''XAddr'' \<mapsto> False], PTZ = False\<rparr>, None) \<and>
   ToLower ''XAddr'' = ''xaddr''"
  by (simp add: path_simps GetCapabilities_def eventsCap_def streamingCap_def ptzCap_def
      eventsStep_def streamingStep_def interfaceToBool_def ToLower_def lower_char_def
      capabilitiesResponse_def inOrder_def)

text \<open>
  C5, amended. On every successful call the resulting events map has a key that
  lower-cases to \<^verbatim>\<open>xaddr\<close> exactly when some wire key of the events branch that does not
  itself lower-case to \<^verbatim>\<open>xaddr\<close> does so after its first \<^verbatim>\<open>WS\<close> is removed; and the
  resulting streaming map has such a key exactly when the streaming branch has a wire key
  that lower-cases to \<^verbatim>\<open>xaddr\<close>.
\<close>

theorem Events_Streaming_xaddr:
  assumes "validSchedule sch"
    and "snd (GetCapabilities sch (Inr r)) = None"
  shows "\<exists>ev st. Events (fst (GetCapabilities sch (Inr r))) = Some ev \<and>
     Streaming (fst (GetCapabilities sch (Inr r))) = Some st \<and>
     (\<forall>b. ValueForPath r (envelopeBodyPath @ ''.Events'') = Inr b \<longrightarrow>
        ((\<exists>k' \<in> dom ev. ToLower k' = ''xaddr'') \<longleftrightarrow>
         (\<exists>k \<in> keysOf b. ToLower k \<noteq> ''xaddr'' \<and>
            ToLower (Replace k ''WS'' '''' 1) = ''xaddr''))) \<and>
     (\<forall>c. ValueForPath r (envelopeBodyPath @ ''.Media.StreamingCapabilities'') = Inr c \<longrightarrow>
        ((\<exists>k' \<in> dom st. ToLower k' = ''xaddr'') \<longleftrightarrow>
         (\<exists>k \<in> keysOf c. ToLower k = ''xaddr'')))"
proof -
  from assms(2) obtain a b c where
    l: "ValueForPath r (envelopeBodyPath @ ''.Device.Network'') = Inr a"
       "ValueForPath r (envelopeBodyPath @ ''.Events'') = Inr b"
       "ValueForPath r (envelopeBodyPath @ ''.Media.StreamingCapabilities'') = Inr c"
    unfolding GetCapabilities_success_iff by blast
  let ?ev = "eventsCap sch b" and ?st = "streamingCap sch c"
  have e: "(\<exists>k' \<in> dom ?ev. ToLower k' = ''xaddr'') \<longleftrightarrow>
      (\<exists>k \<in> keysOf b. ToLower k \<noteq> ''xaddr'' \<and> ToLower (Replace k ''WS'' '''' 1) = ''xaddr'')"
    unfolding eventsCap_dom [OF assms(1)] by blast
  have s: "(\<exists>k' \<in> dom ?st. ToLower k' = ''xaddr'') \<longleftrightarrow>
      (\<exists>k \<in> keysOf c. ToLower k = ''xaddr'')"
    unfolding streamingCap_dom [OF assms(1)] by (simp add: ToLower_Replace_underscore)
  show ?thesis
    by (intro exI [of _ ?ev] exI [of _ ?st]) (simp add: GetCapabilities_success [OF l] l e s)
qed

theorem Events_Streaming_xaddr_witness:
  "validSchedule inOrder \<and>
   (\<exists>ev st. GetCapabilities inOrder (Inr (capabilitiesResponse
      [(''Device'', Mapping [(''Network'', Mapping [])]),
       (''Events'', Mapping [(''WSPullPoint'', String ''true''), (''XAddr'', String ''http://x'')]),
       (''Media'', Mapping [(''StreamingCapabilities'',
          Mapping [(''RTP_TCP'', String ''true'')])])])) =
     (\<lparr>Network = netCap inOrder (Mapping []), Events = Some ev, Streaming = Some st,
       PTZ = False\<rparr>, None) \<and>
     \<not> (\<exists>k' \<in> dom ev. ToLower k' = ''xaddr'') \<and>
     \<not> (\<exists>k' \<in> dom st. ToLower k' = ''xaddr''))"
proof -
  let ?me = "[(''WSPullPoint'', String ''true''), (''XAddr'', String ''http://x'')]"
  let ?ms = "[(''RTP_TCP'', String ''true'')]"
  let ?t = "capabilitiesResponse
      [(''Device'', Mapping [(''Network'', Mapping [])]),
       (''Events'', Mapping ?me),
       (''Media'', Mapping [(''StreamingCapabilities'', Mapping ?ms)])]"
  have l: "ValueForPath ?t (envelopeBodyPath @ ''.Device.Network'') = Inr (Mapping [])"
      "ValueForPath ?t (envelopeBodyPath @ ''.Events'') = Inr (Mapping ?me)"
      "ValueForPath ?t (envelopeBodyPath @ ''.Media.StreamingCapabilities'') = Inr (Mapping ?ms)"
    by (simp_all add: path_simps capabilitiesResponse_def)
  have p: "\<not> ptzCap ?t"
    by (simp add: ptzCap_def path_simps capabilitiesResponse_def)
  have ok: "snd (GetCapabilities inOrder (Inr ?t)) = None"
    by (simp add: GetCapabilities_success [OF l])
  from Events_Streaming_xaddr [OF validSchedule_inOrder ok]
  obtain ev st where ev: "Events (fst (GetCapabilities inOrder (Inr ?t))) = Some ev"
    and st: "Streaming (fst (GetCapabilities inOrder (Inr ?t))) = Some st"
    and e: "\<forall>b. ValueForPath ?t (envelopeBodyPath @ ''.Events'') = Inr b \<longrightarrow>
        ((\<exists>k' \<in> dom ev. ToLower k' = ''xaddr'') \<longleftrightarrow>
         (\<exists>k \<in> keysOf b. ToLower k \<noteq> ''xaddr'' \<and>
            ToLower (Replace k ''WS'' '''' 1) = ''xaddr''))"
    and s: "\<forall>c. ValueForPath ?t (envelopeBodyPath @ ''.Media.StreamingCapabilities'') = Inr c \<longrightarrow>
        ((\<exists>k' \<in> dom st. ToLower k' = ''xaddr'') \<longleftrightarrow>
         (\<exists>k \<in> keysOf c. ToLower k = ''xaddr''))"
    by (elim exE conjE)
  have ne: "\<not> (\<exists>k' \<in> dom ev. ToLower k' = ''xaddr'')"
    using e [rule_format, OF l(2)] by (simp add: ToLower_def lower_char_def)
  have ns: "\<not> (\<exists>k' \<in> dom st. ToLower k' = ''xaddr'')"
    using s [rule_format, OF l(3)] by (simp add: ToLower_def lower_char_def)
  have "GetCapabilities inOrder (Inr ?t) =
     (\<lparr>Network = netCap inOrder (Mapping []), Events = Some ev, Streaming = Some st,
       PTZ = False\<rparr>, None)"
    using ev st p by (simp add: GetCapabilities_success [OF l])
  with ne ns validSchedule_inOrder show ?thesis by blast
qed

text \<open>
  C8, as stated, fails: the events keys \<^verbatim>\<open>WSA\<close> and \<^verbatim>\<open>AWS\<close> are both written to the key
  \<^verbatim>\<open>A\<close>, and the entry iterated last wins; a run that iterates the map in one order and a
  run that iterates it in the other return different aggregates.
\<close>

theorem iteration_order_changes_result:
  "validSchedule inOrder \<and> validSchedule backwards \<and>
   Events (fst (GetCapabilities inOrder (Inr (capabilitiesResponse
      [(''Device'', Mapping [(''Network'', Mapping [])]),
       (''Events'', Mapping [(''WSA'', String ''true''), (''AWS'', String ''false'')]),
       (''Media'', Mapping [(''StreamingCapabilities'', Mapping [])])])))) =
     Some [''A'' \<mapsto> False] \<and>
   Events (fst (GetCapabilities backwards (Inr (capabilitiesResponse
      [(''Device'', Mapping [(''Network'', Mapping [])]),
       (''Events'', Mapping [(''WSA'', String ''true''), (''AWS'', String ''false'')]),
       (''Media'', Mapping [(''StreamingCapabilities'', Mapping [])])])))) =
     Some [''A'' \<mapsto> True] \<and>
   GetCapabilities inOrder (Inr (capabilitiesResponse
      [(''Device'', Mapping [(''Network'', Mapping [])]),
       (''Events'', Mapping [(''WSA'', String ''true''), (''AWS'', String ''false'')]),
       (''Media'', Mapping [(''StreamingCapabilities'', Mapping [])])])) \<noteq>
   GetCapabilities backwards (Inr (capabilitiesResponse
      [(''Device'', Mapping [(''Network'', Mapping [])]),
       (''Events'', Mapping [(''WSA'', String ''true''), (''AWS'', String ''false'')]),
       (''Media'', Mapping [(''StreamingCapabilities'', Mapping [])])]))"
proof -
  let ?t = "capabilitiesResponse
      [(''Device'', Mapping [(''Network'', Mapping [])]),
       (''Events'', Mapping [(''WSA'', String ''true''), (''AWS'', String ''false'')]),
       (''Media'', Mapping [(''StreamingCapabilities'', Mapping [])])]"
  have f: "Events (fst (GetCapabilities inOrder (Inr ?t))) = Some [''A'' \<mapsto> False]"
    by (simp add: path_simps GetCapabilities_def eventsCap_def eventsStep_def
        interfaceToBool_def ToLower_def lower_char_def capabilitiesResponse_def inOrder_def)
  have b: "Events (fst (GetCapabilities backwards (Inr ?t))) = Some [''A'' \<mapsto> True]"
    by (simp add: path_simps GetCapabilities_def eventsCap_def eventsStep_def
        interfaceToBool_def ToLower_def lower_char_def capabilitiesResponse_def backwards_def)
  have "[''A'' \<mapsto> False] \<noteq> [''A'' \<mapsto> True]"
    by (auto dest: map_upd_eqD1)
  with f b have "GetCapabilities inOrder (Inr ?t) \<noteq> GetCapabilities backwards (Inr ?t)"
    by auto
  with f b validSchedule_inOrder validSchedule_backwards show ?thesis
    by simp
qed

text \<open>
  C8, amended. The error outcome of a call does not depend on the iteration order. When
  no two wire keys of a loop collide (the keys of the extension map are distinct, and so
  are the renamed keys the events loop and the streaming loop write), two runs over the
  same response, whatever order each iterates its maps in, return equal aggregates and
  equal errors.
\<close>

theorem GetCapabilities_deterministic:
  "snd (GetCapabilities s1 sent) = snd (GetCapabilities s2 sent) \<and>
   (validSchedule s1 \<and> validSchedule s2 \<and> collisionFree r \<longrightarrow>
      GetCapabilities s1 (Inr r) = GetCapabilities s2 (Inr r))"
proof (intro conjI impI)
  show "snd (GetCapabilities s1 sent) = snd (GetCapabilities s2 sent)"
    by (simp add: GetCapabilities_def split: sum.splits)
next
  assume h: "validSchedule s1 \<and> validSchedule s2 \<and> collisionFree r"
  show "GetCapabilities s1 (Inr r) = GetCapabilities s2 (Inr r)"
  proof (cases "snd (GetCapabilities s1 (Inr r))")
    case None
    then obtain a b c where
      l: "ValueForPath r (envelopeBodyPath @ ''.Device.Network'') = Inr a"
         "ValueForPath r (envelopeBodyPath @ ''.Events'') = Inr b"
         "ValueForPath r (envelopeBodyPath @ ''.Media.StreamingCapabilities'') = Inr c"
      unfolding GetCapabilities_success_iff by blast
    with h have "distinct (extensionKeys a)" "distinct (eventsKeys b)"
      "distinct (streamingKeys c)"
      by (simp_all add: collisionFree_def)
    with h have "netCap s1 a = netCap s2 a" "eventsCap s1 b = eventsCap s2 b"
      "streamingCap s1 c = streamingCap s2 c"
      by (simp_all add: netCap_schedule eventsCap_schedule streamingCap_schedule)
    then show ?thesis
      by (simp add: GetCapabilities_success [OF l])
  next
    case (Some e)
    then show ?thesis
      by (auto simp add: GetCapabilities_def split: sum.splits)
  qed
qed

theorem GetCapabilities_deterministic_witness:
  "validSchedule inOrder \<and> validSchedule backwards \<and>
   GetCapabilities inOrder (Inr (capabilitiesResponse
      [(''Device'', Mapping [(''Network'', Mapping [(''Extension'',
          Mapping [(''Foo'', String ''true''), (''Bar'', String ''false'')])])]),
       (''Events'', Mapping [(''WSPullPoint'', String ''true''), (''XAddr'', String ''http://x''),
          (''WSSubscriptionPolicy'', String ''false'')]),
       (''Media'', Mapping [(''StreamingCapabilities'',
          Mapping [(''RTP_TCP'', String ''true''), (''RTPMulticast'', String ''false'')])])])) =
   GetCapabilities backwards (Inr (capabilitiesResponse
      [(''Device'', Mapping [(''Network'', Mapping [(''Extension'',
          Mapping [(''Foo'', String ''true''), (''Bar'', String ''false'')])])]),
       (''Events'', Mapping [(''WSPullPoint'', String ''true''), (''XAddr'', String ''http://x''),
          (''WSSubscriptionPolicy'', String ''false'')]),
       (''Media'', Mapping [(''StreamingCapabilities'',
          Mapping [(''RTP_TCP'', String ''true''), (''RTPMulticast'', String ''false'')])])]))"
proof -
  let ?t = "capabilitiesResponse
      [(''Device'', Mapping [(''Network'', Mapping [(''Extension'',
          Mapping [(''Foo'', String ''true''), (''Bar'', String ''false'')])])]),
       (''Events'', Mapping [(''WSPullPoint'', String ''true''), (''XAddr'', String ''http://x''),
          (''WSSubscriptionPolicy'', String ''false'')]),
       (''Media'', Mapping [(''StreamingCapabilities'',
          Mapping [(''RTP_TCP'', String ''true''), (''RTPMulticast'', String ''false'')])])]"
  have c: "collisionFree ?t"
    by (simp add: collisionFree_def path_simps capabilitiesResponse_def extensionKeys_def
        eventsKeys_def streamingKeys_def mapIndex_def ToLower_def lower_char_def)
  from GetCapabilities_deterministic [where ?s1.0 = inOrder and ?s2.0 = backwards and r = ?t]
    validSchedule_inOrder validSchedule_backwards c
  show ?thesis by blast
qed

end
